theory Spec2Isabelle
  imports Complex_Main "HOL-Library.Multiset" "HOL-Library.List_Lexorder" "HOL-Library.Char_ord"
begin

section \<open>Python runtime: exceptions, generators, itertools\<close>

text \<open>
  The exceptions that can travel through \<^verbatim>\<open>matminer/featurizers/function.py\<close>.
  \<open>SympifyError\<close> is sympy's subclass of \<open>ValueError\<close>; the handler
  \<^verbatim>\<open>except (TypeError, ValueError)\<close> of \<^verbatim>\<open>_exp_iter\<close> catches by class, so it
  catches the subclass too.
\<close>

datatype exn =
    TypeError | ValueError | SympifyError
  | KeyError | OverflowError | ZeroDivisionError | SyntaxError
  | OtherError string

fun caught :: "exn \<Rightarrow> bool" where
  "caught TypeError = True"
| "caught ValueError = True"
| "caught SympifyError = True"
| "caught _ = False"

text \<open>
  A generator body \<^verbatim>\<open>for x in xs: <yield the items of f x>\<close>, drained by
  \<^verbatim>\<open>list(...)\<close>: the items in order, or the first exception that escapes.
\<close>

fun collect :: "('a \<Rightarrow> exn + 'b list) \<Rightarrow> 'a list \<Rightarrow> exn + 'b list" where
  "collect f [] = Inr []"
| "collect f (x # xs) =
     (case f x of
        Inl e \<Rightarrow> Inl e
      | Inr ys \<Rightarrow> (case collect f xs of Inl e \<Rightarrow> Inl e | Inr zs \<Rightarrow> Inr (ys @ zs)))"

text \<open>\<^verbatim>\<open>itertools.combinations(args, n)\<close>: the length-\<open>n\<close> subsequences of \<open>args\<close>.\<close>

fun combinations :: "'a list \<Rightarrow> nat \<Rightarrow> 'a list list" where
  "combinations xs 0 = [[]]"
| "combinations [] (Suc n) = []"
| "combinations (x # xs) (Suc n) =
     map ((#) x) (combinations xs n) @ combinations xs (Suc n)"

text \<open>\<^verbatim>\<open>"x{}".format(m)\<close>: the decimal numeral of \<open>m\<close> after the letter x.\<close>

definition digit_char :: "nat \<Rightarrow> char" where
  "digit_char d = ''0123456789'' ! d"

function string_of_nat :: "nat \<Rightarrow> string" where
  "string_of_nat m =
     (if m < 10 then [digit_char m]
      else string_of_nat (m div 10) @ [digit_char (m mod 10)])"
  by pat_completeness auto
termination
  by (relation "measure id") auto

declare string_of_nat.simps [simp del]

definition var_name :: "nat \<Rightarrow> string" where
  "var_name m = ''x'' @ string_of_nat m"

section \<open>The featurizer object and the substitution engine\<close>

text \<open>
  The attributes \<^verbatim>\<open>__init__\<close> sets. \<open>exp_dict\<close> is the \<^verbatim>\<open>OrderedDict\<close> from depth
  to the list of sympy expressions of that depth. The type \<open>'e\<close> is the type of sympy
  expressions; HOL equality on \<open>'e\<close> stands for sympy's \<^verbatim>\<open>==\<close> (with its hash), which
  is what Python's \<^verbatim>\<open>set\<close> uses.
\<close>

record 'e featurizer =
  expressions :: "string list"
  multi_feature_depth :: int
  combo_function :: "'e list \<Rightarrow> exn + 'e"
  exp_dict :: "(int \<times> 'e list) list"

text \<open>
  \<^verbatim>\<open>subs_dict = {"x{}".format(m) : arg for m, arg in enumerate(arg_combo)}\<close>
\<close>

definition subs_dict :: "'a list \<Rightarrow> (string \<times> 'a) list" where
  "subs_dict arg_combo = map (\<lambda>(m, arg). (var_name m, arg)) (enumerate 0 arg_combo)"

text \<open>
  The body of the innermost loop of \<^verbatim>\<open>_exp_iter\<close>:
  \<^verbatim>\<open>
  try:
      yield postprocess(exp.subs(subs_dict))
  except (TypeError, ValueError):
      yield None
  \<close>
  \<open>subs\<close> is sympy's substitution and may raise, as \<open>postprocess\<close> may. The yielded item
  is \<open>Some w\<close> for a value \<open>w\<close> and \<open>None\<close> for Python's \<^verbatim>\<open>None\<close>.
\<close>

definition postprocessed ::
  "('e \<Rightarrow> (string \<times> 'a) list \<Rightarrow> exn + 'v) \<Rightarrow> ('v \<Rightarrow> exn + 'v) \<Rightarrow>
     (string \<times> 'a) list \<Rightarrow> 'e \<Rightarrow> exn + 'v" where
  "postprocessed subs postprocess sd ex =
     (case subs ex sd of Inl e \<Rightarrow> Inl e | Inr v \<Rightarrow> postprocess v)"

definition yield_exp ::
  "('e \<Rightarrow> (string \<times> 'a) list \<Rightarrow> exn + 'v) \<Rightarrow> ('v \<Rightarrow> exn + 'v) \<Rightarrow>
     (string \<times> 'a) list \<Rightarrow> 'e \<Rightarrow> exn + 'v option list" where
  "yield_exp subs postprocess sd ex =
     (case postprocessed subs postprocess sd ex of
        Inr w \<Rightarrow> Inr [Some w]
      | Inl e \<Rightarrow> if caught e then Inr [None] else Inl e)"

text \<open>
  \<^verbatim>\<open>_exp_iter(self, *args, postprocess=None)\<close>, drained into a list as both callers
  do. \<open>postprocess\<close> is the keyword argument as passed: \<open>None\<close> is replaced by the
  identity (\<^verbatim>\<open>postprocess or (lambda x: x)\<close>). \<^verbatim>\<open>self.exp_dict[n]\<close> raises
  \<open>KeyError\<close> on a missing depth, when the loop reaches it.
\<close>

definition exp_iter ::
  "('e \<Rightarrow> (string \<times> 'a) list \<Rightarrow> exn + 'v) \<Rightarrow> 'e featurizer \<Rightarrow> 'a list \<Rightarrow>
     ('v \<Rightarrow> exn + 'v) option \<Rightarrow> exn + 'v option list" where
  "exp_iter subs F args postprocess =
     (let post = (case postprocess of None \<Rightarrow> Inr | Some p \<Rightarrow> p) in
      collect (\<lambda>n.
        collect (\<lambda>arg_combo.
          let sd = subs_dict arg_combo in
          (case map_of (exp_dict F) n of
             None \<Rightarrow> Inl KeyError
           | Some exps \<Rightarrow> collect (yield_exp subs post sd) exps))
          (combinations args (nat n)))
        [1..multi_feature_depth F])"

text \<open>
  \<^verbatim>\<open>featurize(self, *args, postprocess=float)\<close> and
  \<^verbatim>\<open>feature_labels(self, col_id, latexify_labels=False)\<close>. The renderers \<open>str\<close> and
  \<open>latex\<close> (Python's \<^verbatim>\<open>str\<close>, \<^verbatim>\<open>sympy.latex\<close>) are sympy's and are parameters.
\<close>

definition featurize ::
  "('e \<Rightarrow> (string \<times> 'a) list \<Rightarrow> exn + 'v) \<Rightarrow> 'e featurizer \<Rightarrow> 'a list \<Rightarrow>
     ('v \<Rightarrow> exn + 'v) option \<Rightarrow> exn + 'v option list" where
  "featurize subs F args postprocess = exp_iter subs F args postprocess"

definition feature_labels ::
  "('e \<Rightarrow> (string \<times> 'a) list \<Rightarrow> exn + 'v) \<Rightarrow> ('v \<Rightarrow> exn + 'v) \<Rightarrow> ('v \<Rightarrow> exn + 'v) \<Rightarrow>
     'e featurizer \<Rightarrow> 'a list \<Rightarrow> bool \<Rightarrow> exn + 'v option list" where
  "feature_labels subs str latex F col_id latexify_labels =
     (let postprocess = (if latexify_labels then latex else str) in
      exp_iter subs F col_id (Some postprocess))"

section \<open>The combination generator and the constructor\<close>

text \<open>A comprehension or loop over calls that may raise: the first exception escapes.\<close>

fun traverse :: "('a \<Rightarrow> exn + 'b) \<Rightarrow> 'a list \<Rightarrow> exn + 'b list" where
  "traverse f [] = Inr []"
| "traverse f (x # xs) =
     (case f x of
        Inl e \<Rightarrow> Inl e
      | Inr y \<Rightarrow> (case traverse f xs of Inl e \<Rightarrow> Inl e | Inr ys \<Rightarrow> Inr (y # ys)))"

text \<open>
  \<^verbatim>\<open>itertools.permutations(exp_set)\<close>: every ordering of the positions of the tuple, in
  lexicographic order of the positions (equal elements at different positions give
  repeated orderings). \<^verbatim>\<open>itertools.product(*all_arrays)\<close> is \<^const>\<open>product_lists\<close>.
\<close>

function permutations :: "'a list \<Rightarrow> 'a list list" where
  "permutations xs =
     (if xs = [] then [[]]
      else concat (map (\<lambda>i. map ((#) (xs ! i)) (permutations (take i xs @ drop (Suc i) xs)))
                       [0..<length xs]))"
  by pat_completeness auto
termination
  by (relation "measure length") auto

declare permutations.simps [simp del]

text \<open>
  \<^verbatim>\<open>generate_expressions_combinations(expressions, combo_depth=2, combo_function=np.prod)\<close>.
  \<open>parse_expr\<close> is sympy's parser and \<open>subs_symbol ex old new\<close> is the renaming
  \<^verbatim>\<open>exp_array.subs({"x": "x{}".format(n)})\<close> on one element of the array.
  \<open>combo_exps_of\<close> is the list \<^verbatim>\<open>combo_exps\<close> that the two loops fill (lines 200 to
  210 of the source).
\<close>

definition combo_exps_of ::
  "(string \<Rightarrow> exn + 'e) \<Rightarrow> ('e \<Rightarrow> string \<Rightarrow> string \<Rightarrow> 'e) \<Rightarrow>
     string list \<Rightarrow> int \<Rightarrow> ('e list \<Rightarrow> exn + 'e) \<Rightarrow> exn + 'e list" where
  "combo_exps_of parse_expr subs_symbol expressions0 combo_depth combo_function0 =
     (case traverse parse_expr expressions0 of
        Inl e \<Rightarrow> Inl e
      | Inr exp_array \<Rightarrow>
          (let all_arrays =
                 map (\<lambda>n. map (\<lambda>ex. subs_symbol ex ''x'' (var_name n)) exp_array)
                     [0..<nat combo_depth]
           in traverse combo_function0
                (concat (map permutations (product_lists all_arrays)))))"

text \<open>
  The function as the source has it. Its last statement, line 213, reads
  \<^verbatim>\<open>unique_exps = list(set(combo_exps) - set([parse_expr('x0')]t ))\<close>
  with a letter \<^verbatim>\<open>t\<close> after the closing bracket, which is not valid Python: the
  statement cannot be executed and is a \<open>SyntaxError\<close>. The function is followed through
  its valid statements, where an exception of the parser or of the combining function
  escapes first, and stops with \<open>SyntaxError\<close> at line 213. It never returns a list.
\<close>

definition generate_expressions_combinations ::
  "(string \<Rightarrow> exn + 'e) \<Rightarrow> ('e \<Rightarrow> string \<Rightarrow> string \<Rightarrow> 'e) \<Rightarrow>
     string list \<Rightarrow> int \<Rightarrow> ('e list \<Rightarrow> exn + 'e) \<Rightarrow> exn + 'e list" where
  "generate_expressions_combinations parse_expr subs_symbol
       expressions0 combo_depth combo_function0 =
     (case combo_exps_of parse_expr subs_symbol expressions0 combo_depth combo_function0 of
        Inl e \<Rightarrow> Inl e
      | Inr combo_exps \<Rightarrow> Inl SyntaxError)"

text \<open>
  The statement that line 213 is written to be, without the stray letter:
  \<^verbatim>\<open>list(set(combo_exps) - set([parse_expr('x0')]))\<close>, the elements of the difference,
  each once (the comment above it says: filter for unique combinations, also remove
  identity). The order in which Python iterates over a set depends on the hash values
  and on the history of the set; it is the parameter \<open>iteration\<close>, which arranges the
  distinct elements.
\<close>

definition set_difference_list :: "('e list \<Rightarrow> 'e list) \<Rightarrow> 'e list \<Rightarrow> 'e list \<Rightarrow> 'e list" where
  "set_difference_list iteration a b = iteration (filter (\<lambda>c. c \<notin> set b) (remdups a))"

text \<open>
  The function with line 213 repaired in that way. This is not the source: it is the
  program that the source is written to be, and the statements below that are about it
  name it.
\<close>

definition generate_expressions_combinations_repaired ::
  "(string \<Rightarrow> exn + 'e) \<Rightarrow> ('e \<Rightarrow> string \<Rightarrow> string \<Rightarrow> 'e) \<Rightarrow> ('e list \<Rightarrow> 'e list) \<Rightarrow>
     string list \<Rightarrow> int \<Rightarrow> ('e list \<Rightarrow> exn + 'e) \<Rightarrow> exn + 'e list" where
  "generate_expressions_combinations_repaired parse_expr subs_symbol iteration
       expressions0 combo_depth combo_function0 =
     (case combo_exps_of parse_expr subs_symbol expressions0 combo_depth combo_function0 of
        Inl e \<Rightarrow> Inl e
      | Inr combo_exps \<Rightarrow>
          (case parse_expr ''x0'' of
             Inl e \<Rightarrow> Inl e
           | Inr x0 \<Rightarrow> Inr (set_difference_list iteration combo_exps [x0])))"

text \<open>The module constant \<^verbatim>\<open>default_exps\<close>.\<close>

definition default_exps :: "string list" where
  "default_exps =
     [''x'', ''1/x'', ''sqrt(x)'', ''1/sqrt(x)'', ''x**2'', ''x**-2'', ''x**3'',
      ''x**-3'', ''log(x)'', ''1/log(x)'', ''exp(x)'', ''exp(-x)'']"

text \<open>
  \<^verbatim>\<open>FunctionFeaturizer.__init__(self, expressions=None, multi_feature_depth=1,
  combo_function=None)\<close>. An argument that is \<^verbatim>\<open>None\<close> (or an empty list of
  expressions) is replaced by its default. The call
  \<^verbatim>\<open>generate_expressions_combinations(self.expressions, n)\<close> does not pass the
  combining function, so the table is always built with \<^verbatim>\<open>np.prod\<close>, here the
  parameter \<open>np_prod\<close>.
\<close>

definition init ::
  "(string \<Rightarrow> exn + 'e) \<Rightarrow> ('e \<Rightarrow> string \<Rightarrow> string \<Rightarrow> 'e) \<Rightarrow>
     ('e list \<Rightarrow> exn + 'e) \<Rightarrow>
     string list option \<Rightarrow> int \<Rightarrow> ('e list \<Rightarrow> exn + 'e) option \<Rightarrow> exn + 'e featurizer" where
  "init parse_expr subs_symbol np_prod expressions0 multi_feature_depth0 combo_function0 =
     (let exprs = (case expressions0 of
                     None \<Rightarrow> default_exps
                   | Some xs \<Rightarrow> if xs = [] then default_exps else xs);
          combo = (case combo_function0 of None \<Rightarrow> np_prod | Some f \<Rightarrow> f)
      in case traverse
                (\<lambda>n. case generate_expressions_combinations parse_expr subs_symbol
                              exprs n np_prod of
                        Inl e \<Rightarrow> Inl e
                      | Inr exps \<Rightarrow> Inr (n, exps))
                [1..multi_feature_depth0] of
           Inl e \<Rightarrow> Inl e
         | Inr table \<Rightarrow>
             Inr \<lparr>expressions = exprs, multi_feature_depth = multi_feature_depth0,
                  combo_function = combo, exp_dict = table\<rparr>)"

text \<open>The constructor over the repaired generator; again not the source.\<close>

definition init_repaired ::
  "(string \<Rightarrow> exn + 'e) \<Rightarrow> ('e \<Rightarrow> string \<Rightarrow> string \<Rightarrow> 'e) \<Rightarrow> ('e list \<Rightarrow> 'e list) \<Rightarrow>
     ('e list \<Rightarrow> exn + 'e) \<Rightarrow>
     string list option \<Rightarrow> int \<Rightarrow> ('e list \<Rightarrow> exn + 'e) option \<Rightarrow> exn + 'e featurizer" where
  "init_repaired parse_expr subs_symbol iteration np_prod
       expressions0 multi_feature_depth0 combo_function0 =
     (let exprs = (case expressions0 of
                     None \<Rightarrow> default_exps
                   | Some xs \<Rightarrow> if xs = [] then default_exps else xs);
          combo = (case combo_function0 of None \<Rightarrow> np_prod | Some f \<Rightarrow> f)
      in case traverse
                (\<lambda>n. case generate_expressions_combinations_repaired parse_expr subs_symbol
                              iteration exprs n np_prod of
                        Inl e \<Rightarrow> Inl e
                      | Inr exps \<Rightarrow> Inr (n, exps))
                [1..multi_feature_depth0] of
           Inl e \<Rightarrow> Inl e
         | Inr table \<Rightarrow>
             Inr \<lparr>expressions = exprs, multi_feature_depth = multi_feature_depth0,
                  combo_function = combo, exp_dict = table\<rparr>)"

section \<open>The enumeration order in the words of the specification\<close>

text \<open>
  The nested order of the specification: depth ascending from 1 to the maximum depth,
  then the argument combinations of that size, then the expressions of the table at
  that depth. Each entry is a (depth, argument-combination, expression) triple.
\<close>

definition table_at :: "'e featurizer \<Rightarrow> int \<Rightarrow> 'e list" where
  "table_at F n = (case map_of (exp_dict F) n of None \<Rightarrow> [] | Some exps \<Rightarrow> exps)"

definition nested_order :: "'e featurizer \<Rightarrow> 'a list \<Rightarrow> (int \<times> 'a list \<times> 'e) list" where
  "nested_order F args =
     concat (map (\<lambda>n.
       concat (map (\<lambda>arg_combo. map (\<lambda>ex. (n, arg_combo, ex)) (table_at F n))
                   (combinations args (nat n))))
       [1..multi_feature_depth F])"

text \<open>The item at a triple: the postprocessed substitution, or the missing sentinel.\<close>

definition item_at ::
  "('e \<Rightarrow> (string \<times> 'a) list \<Rightarrow> exn + 'v) \<Rightarrow> ('v \<Rightarrow> exn + 'v) \<Rightarrow>
     (int \<times> 'a list \<times> 'e) \<Rightarrow> 'v option" where
  "item_at subs postprocess t =
     (case postprocessed subs postprocess (subs_dict (fst (snd t))) (snd (snd t)) of
        Inl e \<Rightarrow> None
      | Inr w \<Rightarrow> Some w)"

text \<open>The exception, if any, that evaluating a triple raises.\<close>

definition raised_at ::
  "('e \<Rightarrow> (string \<times> 'a) list \<Rightarrow> exn + 'v) \<Rightarrow> ('v \<Rightarrow> exn + 'v) \<Rightarrow>
     (int \<times> 'a list \<times> 'e) \<Rightarrow> exn option" where
  "raised_at subs postprocess t =
     (case postprocessed subs postprocess (subs_dict (fst (snd t))) (snd (snd t)) of
        Inl e \<Rightarrow> Some e
      | Inr w \<Rightarrow> None)"


text \<open>
  Every depth the outer loop of \<^verbatim>\<open>_exp_iter\<close> visits has its entry in \<open>exp_dict\<close>, as
  in every object that \<^verbatim>\<open>__init__\<close> returns.
\<close>

definition well_formed :: "'e featurizer \<Rightarrow> bool" where
  "well_formed F = list_all (\<lambda>n. map_of (exp_dict F) n \<noteq> None) [1..multi_feature_depth F]"

text \<open>The body of the middle loop of \<^verbatim>\<open>_exp_iter\<close>, named for the proofs.\<close>

definition depth_body ::
  "('e \<Rightarrow> (string \<times> 'a) list \<Rightarrow> exn + 'v) \<Rightarrow> ('v \<Rightarrow> exn + 'v) \<Rightarrow> 'e featurizer \<Rightarrow> int \<Rightarrow>
     'a list \<Rightarrow> exn + 'v option list" where
  "depth_body subs post F n arg_combo =
     (let sd = subs_dict arg_combo in
      (case map_of (exp_dict F) n of
         None \<Rightarrow> Inl KeyError
       | Some exps \<Rightarrow> collect (yield_exp subs post sd) exps))"

text \<open>The postprocessing function in force: \<^verbatim>\<open>postprocess or (lambda x: x)\<close>.\<close>

definition effective :: "('v \<Rightarrow> exn + 'v) option \<Rightarrow> 'v \<Rightarrow> exn + 'v" where
  "effective postprocess = (case postprocess of None \<Rightarrow> Inr | Some p \<Rightarrow> p)"

text \<open>The set iteration order rearranges the elements it is given.\<close>

definition arranges :: "('e list \<Rightarrow> 'e list) \<Rightarrow> bool" where
  "arranges iteration \<longleftrightarrow> (\<forall>xs. mset (iteration xs) = mset xs)"

text \<open>One slot of the flat traversal: the innermost loop body at a triple.\<close>

definition slot ::
  "('e \<Rightarrow> (string \<times> 'a) list \<Rightarrow> exn + 'v) \<Rightarrow> ('v \<Rightarrow> exn + 'v) \<Rightarrow>
     (int \<times> 'a list \<times> 'e) \<Rightarrow> exn + 'v option list" where
  "slot subs post t = yield_exp subs post (subs_dict (fst (snd t))) (snd (snd t))"

section \<open>A fragment of sympy\<close>

text \<open>
  sympy is not part of the repository. The general theorems below take its operations
  as parameters. For the examples of the specification, this section models the part of
  sympy they exercise: expressions in sympy's automatically evaluated form, restricted
  to rational numbers, symbols, powers with a rational exponent, products, sums and the
  functions \<open>log\<close> and \<open>exp\<close>. The arguments of a product or a sum are kept sorted, so that
  HOL equality is sympy's structural \<^verbatim>\<open>==\<close>. Outside the fragment (a numeric factor
  distributed over a sum, powers of powers, like terms of a sum) sympy rewrites more
  than this model does.
\<close>

datatype fname = Log | Exp

datatype expr =
    Rational rat
  | Symbol string
  | Power expr rat
  | Mul "expr list"
  | Add "expr list"
  | Fn fname expr

text \<open>A total order on expressions, used only to fix the order of arguments.\<close>

fun rank :: "expr \<Rightarrow> nat" where
  "rank (Rational q) = 0"
| "rank (Symbol s) = 1"
| "rank (Power b q) = 2"
| "rank (Mul es) = 3"
| "rank (Add es) = 4"
| "rank (Fn f a) = 5"

fun less_expr :: "expr \<Rightarrow> expr \<Rightarrow> bool" and less_exprs :: "expr list \<Rightarrow> expr list \<Rightarrow> bool" where
  "less_expr (Rational p) (Rational q) = (p < q)"
| "less_expr (Symbol s) (Symbol t) = (s < t)"
| "less_expr (Power a p) (Power b q) = (less_expr a b \<or> (a = b \<and> p < q))"
| "less_expr (Mul as) (Mul bs) = less_exprs as bs"
| "less_expr (Add as) (Add bs) = less_exprs as bs"
| "less_expr (Fn f a) (Fn g b) = ((f = Log \<and> g = Exp) \<or> (f = g \<and> less_expr a b))"
| "less_expr a b = (rank a < rank b)"
| "less_exprs [] [] = False"
| "less_exprs [] (b # bs) = True"
| "less_exprs (a # as) [] = False"
| "less_exprs (a # as) (b # bs) = (less_expr a b \<or> (a = b \<and> less_exprs as bs))"

fun insert_expr :: "expr \<Rightarrow> expr list \<Rightarrow> expr list" where
  "insert_expr e [] = [e]"
| "insert_expr e (d # ds) = (if less_expr d e then d # insert_expr e ds else e # d # ds)"

definition sort_exprs :: "expr list \<Rightarrow> expr list" where
  "sort_exprs es = foldr insert_expr es []"

text \<open>
  sympy's \<^verbatim>\<open>a * b\<close>: the factors of both operands are flattened, the rational
  factors are multiplied into one coefficient, the exponents of equal bases are added,
  factors with exponent zero vanish, and the rest is sorted behind the coefficient.
\<close>

fun factors :: "expr \<Rightarrow> expr list" where
  "factors (Mul es) = es"
| "factors e = [e]"

fun coefficient :: "expr list \<Rightarrow> rat" where
  "coefficient [] = 1"
| "coefficient (Rational q # fs) = q * coefficient fs"
| "coefficient (f # fs) = coefficient fs"

fun base_exp :: "expr \<Rightarrow> expr \<times> rat" where
  "base_exp (Power b q) = (b, q)"
| "base_exp e = (e, 1)"

fun add_power :: "expr \<times> rat \<Rightarrow> (expr \<times> rat) list \<Rightarrow> (expr \<times> rat) list" where
  "add_power (b, q) [] = [(b, q)]"
| "add_power (b, q) ((b', q') # ps) =
     (if b = b' then (b, q + q') # ps else (b', q') # add_power (b, q) ps)"

fun powers :: "expr list \<Rightarrow> (expr \<times> rat) list" where
  "powers [] = []"
| "powers (Rational q # fs) = powers fs"
| "powers (f # fs) = add_power (base_exp f) (powers fs)"

fun power_term :: "expr \<times> rat \<Rightarrow> expr" where
  "power_term (b, q) = (if q = 1 then b else Power b q)"

definition mul :: "expr \<Rightarrow> expr \<Rightarrow> expr" where
  "mul a b =
     (let fs = factors a @ factors b;
          c = coefficient fs;
          ts = sort_exprs (map power_term (filter (\<lambda>p. snd p \<noteq> 0) (powers fs)))
      in if c = 0 then Rational 0
         else (case (if c = 1 then ts else Rational c # ts) of
                 [] \<Rightarrow> Rational 1
               | [t] \<Rightarrow> t
               | us \<Rightarrow> Mul us))"

text \<open>
  \<^verbatim>\<open>np.prod\<close> on a tuple of sympy expressions multiplies them from the left. (On the
  empty tuple numpy returns the float 1.0, which the fragment shows as the number 1.)
\<close>

fun np_prod :: "expr list \<Rightarrow> exn + expr" where
  "np_prod [] = Inr (Rational 1)"
| "np_prod (e # es) = Inr (foldl mul e es)"

text \<open>Renaming a symbol, as \<^verbatim>\<open>subs\<close> does with a symbol for a symbol.\<close>

fun subs_symbol :: "expr \<Rightarrow> string \<Rightarrow> string \<Rightarrow> expr" where
  "subs_symbol (Rational q) old new = Rational q"
| "subs_symbol (Symbol s) old new = Symbol (if s = old then new else s)"
| "subs_symbol (Power b q) old new = Power (subs_symbol b old new) q"
| "subs_symbol (Mul es) old new = foldl mul (Rational 1) (map (\<lambda>e. subs_symbol e old new) es)"
| "subs_symbol (Add es) old new = Add (sort_exprs (map (\<lambda>e. subs_symbol e old new) es))"
| "subs_symbol (Fn f a) old new = Fn f (subs_symbol a old new)"

text \<open>
  sympy's parser, tabulated on the strings the examples use: the twelve default
  expressions, \<^verbatim>\<open>x0\<close>, a square and its expansion, and two column names. Every other
  string is outside the fragment and is treated as unparseable.
\<close>

definition X :: expr where
  "X = Symbol ''x''"

definition parse_table :: "(string \<times> expr) list" where
  "parse_table =
     [(''x'', X),
      (''1/x'', Power X (- 1)),
      (''sqrt(x)'', Power X (1 / 2)),
      (''1/sqrt(x)'', Power X (- (1 / 2))),
      (''x**2'', Power X 2),
      (''x**-2'', Power X (- 2)),
      (''x**3'', Power X 3),
      (''x**-3'', Power X (- 3)),
      (''log(x)'', Fn Log X),
      (''1/log(x)'', Power (Fn Log X) (- 1)),
      (''exp(x)'', Fn Exp X),
      (''exp(-x)'', Fn Exp (Mul [Rational (- 1), X])),
      (''x0'', Symbol ''x0''),
      (''(x+1)**2'', Power (Add [Rational 1, X]) 2),
      (''x**2+2*x+1'', Add [Rational 1, Power X 2, Mul [Rational 2, X]]),
      (''a'', Symbol ''a''),
      (''b'', Symbol ''b'')]"

definition parse_expr :: "string \<Rightarrow> exn + expr" where
  "parse_expr s = (case map_of parse_table s of None \<Rightarrow> Inl SyntaxError | Some e \<Rightarrow> Inr e)"

definition sympify_symbol :: "string \<Rightarrow> exn + string" where
  "sympify_symbol name =
     (case map_of parse_table name of Some (Symbol t) \<Rightarrow> Inr t | _ \<Rightarrow> Inl SympifyError)"

text \<open>
  Substituting Python floats. sympy evaluates the expression to a number; the model
  follows the value while it is real and records only that it is not a float once it is
  complex or infinite (the root or logarithm of a negative number, a division by
  zero), or when a symbol is left unbound. A product or sum with such an operand is
  recorded as not a float too, although sympy may compute a real number from two
  imaginary factors. Floats are idealised as real numbers.
\<close>

definition real_pow :: "real \<Rightarrow> rat \<Rightarrow> real option" where
  "real_pow r q =
     (case quotient_of q of (n, d) \<Rightarrow>
        if d = 1 then
          (if 0 \<le> n then Some (r ^ nat n)
           else if r = 0 then None
           else Some (1 / r ^ nat (- n)))
        else if 0 < r then Some (r powr of_rat q)
        else if r = 0 \<and> 0 < q then Some 0
        else None)"

fun evalf :: "(string \<Rightarrow> real option) \<Rightarrow> expr \<Rightarrow> real option" where
  "evalf env (Rational q) = Some (of_rat q)"
| "evalf env (Symbol s) = env s"
| "evalf env (Power b q) = (case evalf env b of None \<Rightarrow> None | Some r \<Rightarrow> real_pow r q)"
| "evalf env (Mul es) = map_option prod_list (those (map (evalf env) es))"
| "evalf env (Add es) = map_option sum_list (those (map (evalf env) es))"
| "evalf env (Fn Log a) =
     (case evalf env a of None \<Rightarrow> None | Some r \<Rightarrow> if 0 < r then Some (ln r) else None)"
| "evalf env (Fn Exp a) = map_option exp (evalf env a)"

datatype num = Float real | NotFloat

definition subs_numbers :: "expr \<Rightarrow> (string \<times> real) list \<Rightarrow> exn + num" where
  "subs_numbers ex sd =
     Inr (case evalf (map_of sd) ex of None \<Rightarrow> NotFloat | Some r \<Rightarrow> Float r)"

text \<open>Python's \<^verbatim>\<open>float\<close> on the result of a substitution.\<close>

fun py_float :: "num \<Rightarrow> exn + num" where
  "py_float (Float r) = Inr (Float r)"
| "py_float NotFloat = Inl TypeError"

text \<open>
  Substituting column names: each name is sympified (a \<open>SympifyError\<close> if that fails)
  and replaces its variable, one variable after the other. A rendered label is
  identified by the expression it renders: \<open>Str e\<close> is the plain string that sympy prints
  for \<open>e\<close>, \<open>Latex e\<close> the typeset one.
\<close>

datatype label = Expr expr | Str expr | Latex expr

definition subs_names :: "expr \<Rightarrow> (string \<times> string) list \<Rightarrow> exn + label" where
  "subs_names ex sd =
     (case traverse (\<lambda>(k, name). case sympify_symbol name of
                                   Inl e \<Rightarrow> Inl e
                                 | Inr t \<Rightarrow> Inr (k, t)) sd of
        Inl e \<Rightarrow> Inl e
      | Inr renaming \<Rightarrow> Inr (Expr (foldl (\<lambda>e (k, t). subs_symbol e k t) ex renaming)))"

fun py_str :: "label \<Rightarrow> exn + label" where
  "py_str (Expr e) = Inr (Str e)"
| "py_str l = Inr l"

fun latex :: "label \<Rightarrow> exn + label" where
  "latex (Expr e) = Inr (Latex e)"
| "latex l = Inr l"

text \<open>
  A postprocessing function a caller may pass to \<^verbatim>\<open>featurize\<close>,
  \<^verbatim>\<open>lambda v: 1 / float(v)\<close>: besides the \<open>TypeError\<close> of \<^verbatim>\<open>float\<close> it raises
  \<open>ZeroDivisionError\<close> on 0.0.
\<close>

fun reciprocal_float :: "num \<Rightarrow> exn + num" where
  "reciprocal_float (Float r) = (if r = 0 then Inl ZeroDivisionError else Inr (Float (1 / r)))"
| "reciprocal_float NotFloat = Inl TypeError"

text \<open>
  Featurizer objects for the examples: the attribute values that the repaired
  constructor gives (lemmas \<open>root_init\<close>, \<open>example_init\<close> and \<open>default_init\<close> below). The
  first is that of \<^verbatim>\<open>FunctionFeaturizer(expressions=["sqrt(x)", "x**2"])\<close>.
\<close>

definition root_featurizer :: "expr featurizer" where
  "root_featurizer =
     \<lparr>expressions = [''sqrt(x)'', ''x**2''], multi_feature_depth = 1, combo_function = np_prod,
      exp_dict = [(1, [Power (Symbol ''x0'') (1 / 2), Power (Symbol ''x0'') 2])]\<rparr>"

text \<open>Two expressions are mathematically equivalent: they agree under every valuation.\<close>

definition equivalent :: "expr \<Rightarrow> expr \<Rightarrow> bool" where
  "equivalent a b \<longleftrightarrow> (\<forall>env. evalf env a = evalf env b)"

text \<open>Python's set iteration taken in the order of first insertion, as one possible order.\<close>

definition insertion_order :: "'e list \<Rightarrow> 'e list" where
  "insertion_order xs = xs"

text \<open>
  The object of the depth-2 example of the specification,
  \<^verbatim>\<open>FunctionFeaturizer(expressions=["x", "1/x"], multi_feature_depth=2)\<close>.
\<close>

definition example_featurizer :: "expr featurizer" where
  "example_featurizer =
     \<lparr>expressions = [''x'', ''1/x''], multi_feature_depth = 2, combo_function = np_prod,
      exp_dict =
        [(1, [Power (Symbol ''x0'') (- 1)]),
         (2, [Mul [Symbol ''x0'', Symbol ''x1''],
              Mul [Symbol ''x0'', Power (Symbol ''x1'') (- 1)],
              Mul [Symbol ''x1'', Power (Symbol ''x0'') (- 1)],
              Mul [Power (Symbol ''x0'') (- 1), Power (Symbol ''x1'') (- 1)]])]\<rparr>"

text \<open>
  The depth-2 expressions of the example: the four products of \<^verbatim>\<open>x0\<close> or its
  reciprocal with \<^verbatim>\<open>x1\<close> or its reciprocal. The depth-1 expressions of the default
  configuration: the default expressions in \<^verbatim>\<open>x0\<close> without the identity.
\<close>

definition depth_two_table :: "expr list" where
  "depth_two_table =
     [Mul [Symbol ''x0'', Symbol ''x1''],
      Mul [Symbol ''x0'', Power (Symbol ''x1'') (- 1)],
      Mul [Symbol ''x1'', Power (Symbol ''x0'') (- 1)],
      Mul [Power (Symbol ''x0'') (- 1), Power (Symbol ''x1'') (- 1)]]"




section \<open>Generators and combinations\<close>

lemma collect_Inr_concat:
  "collect f xs = Inr out \<Longrightarrow> (\<And>x ys. x \<in> set xs \<Longrightarrow> f x = Inr ys \<Longrightarrow> ys = g x)
     \<Longrightarrow> out = concat (map g xs)"
proof (induction xs arbitrary: out)
  case Nil
  then show ?case by simp
next
  case (Cons x xs)
  from Cons.prems(1) obtain ys zs where fx: "f x = Inr ys" and r: "collect f xs = Inr zs"
    and o: "out = ys @ zs"
    by (auto split: sum.splits)
  have "ys = g x" using Cons.prems(2) fx by simp
  moreover have "zs = concat (map g xs)" using Cons.IH [OF r] Cons.prems(2) by simp
  ultimately show ?case using o by simp
qed

lemma collect_Inr_all:
  "collect f xs = Inr out \<Longrightarrow> x \<in> set xs \<Longrightarrow> \<exists>ys. f x = Inr ys"
  by (induction xs arbitrary: out) (auto split: sum.splits)

lemma collect_Inl_some:
  "collect f xs = Inl e \<Longrightarrow> \<exists>x \<in> set xs. f x = Inl e"
  by (induction xs) (auto split: sum.splits)

lemma collect_total:
  "(\<And>x. x \<in> set xs \<Longrightarrow> \<exists>ys. f x = Inr ys) \<Longrightarrow> \<exists>out. collect f xs = Inr out"
proof (induction xs)
  case Nil
  then show ?case by simp
next
  case (Cons x xs)
  obtain ys where "f x = Inr ys" using Cons.prems by auto
  moreover obtain zs where "collect f xs = Inr zs" using Cons by auto
  ultimately show ?case by simp
qed

lemma yield_exp_Inr:
  "yield_exp subs post (subs_dict c) ex = Inr ys \<Longrightarrow> ys = [item_at subs post (n, c, ex)]"
  unfolding yield_exp_def item_at_def by (auto split: sum.splits if_splits)

lemma yield_exp_Inr_caught:
  "yield_exp subs post (subs_dict c) ex = Inr ys \<Longrightarrow>
     raised_at subs post (n, c, ex) = Some e \<Longrightarrow> caught e"
  unfolding yield_exp_def raised_at_def by (auto split: sum.splits if_splits)

lemma yield_exp_Inl:
  "yield_exp subs post (subs_dict c) ex = Inl e \<Longrightarrow>
     raised_at subs post (n, c, ex) = Some e \<and> \<not> caught e"
  unfolding yield_exp_def raised_at_def by (auto split: sum.splits if_splits)

lemma yield_exp_total:
  "(\<And>e. raised_at subs post (n, c, ex) = Some e \<Longrightarrow> caught e) \<Longrightarrow>
     \<exists>ys. yield_exp subs post (subs_dict c) ex = Inr ys"
  unfolding yield_exp_def raised_at_def by (auto split: sum.splits if_splits)

lemma depth_body_Inr:
  assumes "depth_body subs post F n c = Inr ys"
  shows "ys = map (\<lambda>ex. item_at subs post (n, c, ex)) (table_at F n)"
proof -
  from assms obtain exps where m: "map_of (exp_dict F) n = Some exps"
    and r: "collect (yield_exp subs post (subs_dict c)) exps = Inr ys"
    unfolding depth_body_def by (auto simp: Let_def split: option.splits)
  have "ys = concat (map (\<lambda>ex. [item_at subs post (n, c, ex)]) exps)"
    using r by (rule collect_Inr_concat) (rule yield_exp_Inr)
  then show ?thesis using m by (simp add: table_at_def concat_map_singleton)
qed

lemma exp_iter_unfold:
  "exp_iter subs F args pp =
     collect (\<lambda>n. collect (depth_body subs (case pp of None \<Rightarrow> Inr | Some p \<Rightarrow> p) F n)
                      (combinations args (nat n))) [1..multi_feature_depth F]"
  unfolding exp_iter_def depth_body_def Let_def ..

lemma exp_iter_Inr_items:
  assumes "exp_iter subs F args pp = Inr out"
  shows "out = map (item_at subs (case pp of None \<Rightarrow> Inr | Some p \<Rightarrow> p)) (nested_order F args)"
proof -
  let ?post = "case pp of None \<Rightarrow> Inr | Some p \<Rightarrow> p"
  let ?g = "\<lambda>n. concat (map (\<lambda>c. map (\<lambda>ex. item_at subs ?post (n, c, ex)) (table_at F n))
                    (combinations args (nat n)))"
  have "out = concat (map ?g [1..multi_feature_depth F])"
    using assms unfolding exp_iter_unfold
  proof (rule collect_Inr_concat)
    fix n ys
    assume "collect (depth_body subs ?post F n) (combinations args (nat n)) = Inr ys"
    then show "ys = ?g n"
      by (rule collect_Inr_concat) (rule depth_body_Inr)
  qed
  then show ?thesis
    by (simp add: nested_order_def map_concat comp_def)
qed

lemma combinations_map: "combinations (map f xs) n = map (map f) (combinations xs n)"
  by (induction xs n rule: combinations.induct) simp_all

lemma combinations_positions:
  "combinations xs n = map (map ((!) xs)) (combinations [0..<length xs] n)"
proof (induction xs arbitrary: n)
  case Nil
  then show ?case by (cases n) simp_all
next
  case (Cons x xs)
  show ?case
  proof (cases n)
    case 0
    then show ?thesis by simp
  next
    case (Suc m)
    have up: "[0..<length (x # xs)] = 0 # map Suc [0..<length xs]"
      by (simp add: upt_conv_Cons map_Suc_upt del: upt_Suc)
    have a: "map (map ((!) (x # xs))) (combinations (map Suc [0..<length xs]) j)
               = combinations xs j" for j
    proof -
      have "map (map ((!) (x # xs))) (combinations (map Suc [0..<length xs]) j)
          = map (map ((!) xs)) (combinations [0..<length xs] j)"
        unfolding combinations_map by (simp add: comp_def)
      then show ?thesis using Cons.IH [of j] by simp
    qed
    have b: "map (\<lambda>c. x # map ((!) (x # xs)) c) (combinations (map Suc [0..<length xs]) m)
               = map ((#) x) (combinations xs m)"
      unfolding a [of m, symmetric] by (simp add: comp_def)
    show ?thesis
      unfolding up Suc by (simp add: a b comp_def)
  qed
qed







lemma nested_order_positions:
  "nested_order F args =
     map (\<lambda>t. (fst t, map ((!) args) (fst (snd t)), snd (snd t)))
         (nested_order F [0..<length args])"
proof -
  have "concat (map (\<lambda>c. map (\<lambda>ex. (n, c, ex)) (table_at F n)) (combinations args k))
      = map (\<lambda>t. (fst t, map ((!) args) (fst (snd t)), snd (snd t)))
          (concat (map (\<lambda>c. map (\<lambda>ex. (n, c, ex)) (table_at F n))
             (combinations [0..<length args] k)))" for n k
    by (subst combinations_positions) (simp add: map_concat comp_def)
  then show ?thesis
    unfolding nested_order_def by (simp add: map_concat comp_def)
qed

lemma collect_append:
  "collect f (xs @ ys) =
     (case collect f xs of Inl e \<Rightarrow> Inl e
      | Inr a \<Rightarrow> (case collect f ys of Inl e \<Rightarrow> Inl e | Inr b \<Rightarrow> Inr (a @ b)))"
  by (induction xs) (auto split: sum.splits)

lemma collect_map: "collect f (map h xs) = collect (\<lambda>x. f (h x)) xs"
  by (induction xs) (auto split: sum.splits)

lemma collect_concat: "collect f (concat xss) = collect (collect f) xss"
  by (induction xss) (auto simp: collect_append split: sum.splits)

lemma collect_cong: "(\<And>x. x \<in> set xs \<Longrightarrow> f x = g x) \<Longrightarrow> collect f xs = collect g xs"
  by (induction xs) (auto split: sum.splits)

lemma well_formed_key:
  "well_formed F \<Longrightarrow> n \<in> set [1..multi_feature_depth F] \<Longrightarrow>
     map_of (exp_dict F) n = Some (table_at F n)"
  unfolding well_formed_def table_at_def list_all_iff by (auto split: option.splits)

lemma depth_body_flat:
  assumes "well_formed F" "n \<in> set [1..multi_feature_depth F]"
  shows "depth_body subs post F n c = collect (slot subs post) (map (\<lambda>ex. (n, c, ex)) (table_at F n))"
  using well_formed_key [OF assms]
  by (simp add: depth_body_def collect_map slot_def)

lemma exp_iter_flat:
  assumes "well_formed F"
  shows "exp_iter subs F args pp = collect (slot subs (effective pp)) (nested_order F args)"
proof -
  let ?post = "effective pp"
  have "collect (slot subs ?post) (nested_order F args)
      = collect (\<lambda>n. collect (\<lambda>c. collect (slot subs ?post) (map (\<lambda>ex. (n, c, ex)) (table_at F n)))
                        (combinations args (nat n))) [1..multi_feature_depth F]"
    unfolding nested_order_def by (simp add: collect_concat collect_map comp_def)
  also have "\<dots> = collect (\<lambda>n. collect (depth_body subs ?post F n) (combinations args (nat n)))
                        [1..multi_feature_depth F]"
  proof (rule collect_cong)
    fix n assume "n \<in> set [1..multi_feature_depth F]"
    then have "depth_body subs ?post F n =
        (\<lambda>c. collect (slot subs ?post) (map (\<lambda>ex. (n, c, ex)) (table_at F n)))"
      using depth_body_flat [OF assms] by blast
    then show "collect (\<lambda>c. collect (slot subs ?post) (map (\<lambda>ex. (n, c, ex)) (table_at F n)))
                 (combinations args (nat n))
             = collect (depth_body subs ?post F n) (combinations args (nat n))"
      by simp
  qed
  finally show ?thesis unfolding exp_iter_unfold effective_def by simp
qed

lemma collect_first_Inl:
  "i < length xs \<Longrightarrow> f (xs ! i) = Inl e \<Longrightarrow> (\<And>j. j < i \<Longrightarrow> \<exists>ys. f (xs ! j) = Inr ys) \<Longrightarrow>
     collect f xs = Inl e"
proof (induction xs arbitrary: i)
  case Nil
  then show ?case by simp
next
  case (Cons x xs)
  show ?case
  proof (cases i)
    case 0
    then show ?thesis using Cons.prems by simp
  next
    case (Suc k)
    obtain ys where "f x = Inr ys" using Cons.prems(3) [of 0] Suc by auto
    moreover have "collect f xs = Inl e"
    proof (rule Cons.IH [of k])
      show "k < length xs" using Cons.prems(1) Suc by simp
      show "f (xs ! k) = Inl e" using Cons.prems(2) Suc by simp
      show "\<exists>ys. f (xs ! j) = Inr ys" if "j < k" for j
        using Cons.prems(3) [of "Suc j"] that Suc by simp
    qed
    ultimately show ?thesis by simp
  qed
qed

lemma slot_Inr_iff:
  "(\<exists>ys. slot subs post t = Inr ys) \<longleftrightarrow> (\<forall>e. raised_at subs post t = Some e \<longrightarrow> caught e)"
  unfolding slot_def yield_exp_def raised_at_def by (auto split: sum.splits if_splits)

lemma slot_Inl_iff:
  "slot subs post t = Inl e \<longleftrightarrow> raised_at subs post t = Some e \<and> \<not> caught e"
  unfolding slot_def yield_exp_def raised_at_def by (auto split: sum.splits if_splits)

lemma item_at_None_iff:
  "item_at subs post t = None \<longleftrightarrow> (\<exists>e. raised_at subs post t = Some e)"
  unfolding item_at_def raised_at_def by (auto split: sum.splits)

lemma nested_order_mem:
  "t \<in> set (nested_order F args) \<Longrightarrow>
     \<exists>n c ex. t = (n, c, ex) \<and> n \<in> set [1..multi_feature_depth F] \<and>
        c \<in> set (combinations args (nat n)) \<and> ex \<in> set (table_at F n)"
  unfolding nested_order_def by auto

lemma depth_body_Inr_caught:
  assumes "depth_body subs post F n c = Inr ys" "ex \<in> set (table_at F n)"
    "raised_at subs post (n, c, ex) = Some e"
  shows "caught e"
proof -
  from assms(1) obtain exps where m: "map_of (exp_dict F) n = Some exps"
    and r: "collect (yield_exp subs post (subs_dict c)) exps = Inr ys"
    unfolding depth_body_def by (auto simp: Let_def split: option.splits)
  have "ex \<in> set exps" using m assms(2) by (simp add: table_at_def)
  then obtain zs where "yield_exp subs post (subs_dict c) ex = Inr zs"
    using collect_Inr_all [OF r] by blast
  then show ?thesis using assms(3) by (rule yield_exp_Inr_caught)
qed

lemma exp_iter_Inr_caught:
  assumes "exp_iter subs F args pp = Inr out" "t \<in> set (nested_order F args)"
    "raised_at subs (effective pp) t = Some e"
  shows "caught e"
proof -
  from nested_order_mem [OF assms(2)] obtain n c ex where t: "t = (n, c, ex)"
    and n: "n \<in> set [1..multi_feature_depth F]" and c: "c \<in> set (combinations args (nat n))"
    and ex: "ex \<in> set (table_at F n)" by blast
  from assms(1) n obtain ys where
    "collect (depth_body subs (effective pp) F n) (combinations args (nat n)) = Inr ys"
    unfolding exp_iter_unfold effective_def using collect_Inr_all by fast
  with c obtain zs where "depth_body subs (effective pp) F n c = Inr zs"
    using collect_Inr_all by fast
  then show ?thesis using ex assms(3) unfolding t by (rule depth_body_Inr_caught)
qed

lemma depth_body_Inl: "depth_body subs post F n c = Inl e \<Longrightarrow> \<not> caught e"
  unfolding depth_body_def
  by (auto simp: Let_def yield_exp_def split: option.splits sum.splits if_splits
           dest!: collect_Inl_some)

lemma exp_iter_Inl_uncaught:
  assumes "exp_iter subs F args pp = Inl e"
  shows "\<not> caught e"
proof -
  from assms obtain n where
    "collect (depth_body subs (effective pp) F n) (combinations args (nat n)) = Inl e"
    unfolding exp_iter_unfold effective_def using collect_Inl_some by fast
  then obtain c where "depth_body subs (effective pp) F n c = Inl e"
    using collect_Inl_some by fast
  then show ?thesis by (rule depth_body_Inl)
qed

lemma exp_iter_returns:
  assumes "well_formed F"
    "\<And>t e. t \<in> set (nested_order F args) \<Longrightarrow> raised_at subs (effective pp) t = Some e \<Longrightarrow> caught e"
  shows "\<exists>out. exp_iter subs F args pp = Inr out"
  unfolding exp_iter_flat [OF assms(1)]
  by (rule collect_total) (use assms(2) in \<open>auto simp: slot_Inr_iff\<close>)

lemma exp_iter_first_uncaught:
  assumes "well_formed F" "i < length (nested_order F args)"
    "raised_at subs (effective pp) (nested_order F args ! i) = Some e" "\<not> caught e"
    "\<And>j e'. j < i \<Longrightarrow> raised_at subs (effective pp) (nested_order F args ! j) = Some e' \<Longrightarrow> caught e'"
  shows "exp_iter subs F args pp = Inl e"
  unfolding exp_iter_flat [OF assms(1)]
proof (rule collect_first_Inl [OF assms(2)])
  show "slot subs (effective pp) (nested_order F args ! i) = Inl e"
    using assms(3,4) by (simp add: slot_Inl_iff)
  show "\<exists>ys. slot subs (effective pp) (nested_order F args ! j) = Inr ys" if "j < i" for j
    using assms(5) [OF that] by (auto simp: slot_Inr_iff)
qed

lemma exp_iter_Inr_items':
  "exp_iter subs F args pp = Inr out \<Longrightarrow>
     out = map (item_at subs (effective pp)) (nested_order F args)"
  unfolding effective_def by (rule exp_iter_Inr_items)

section \<open>Evaluating the examples\<close>

lemma quotient_of_half: "quotient_of (1 / 2) = (1, 2)"
  by code_simp

lemma quotient_of_minus_half: "quotient_of (- (1 / 2)) = (- 1, 2)"
  by code_simp

lemma real_pow_simps:
  "real_pow r (- 1) = (if r = 0 then None else Some (1 / r))"
  "real_pow r 2 = Some (r ^ 2)"
  "real_pow r (- 2) = (if r = 0 then None else Some (1 / r ^ 2))"
  "real_pow r 3 = Some (r ^ 3)"
  "real_pow r (- 3) = (if r = 0 then None else Some (1 / r ^ 3))"
  "0 < r \<Longrightarrow> real_pow r (1 / 2) = Some (sqrt r)"
  "0 < r \<Longrightarrow> real_pow r (- (1 / 2)) = Some (1 / sqrt r)"
  "r < 0 \<Longrightarrow> real_pow r (1 / 2) = None"
  by (simp_all add: real_pow_def quotient_of_half quotient_of_minus_half powr_half_sqrt
        of_rat_divide of_rat_minus powr_minus inverse_eq_divide)

lemma subs_dict_1: "subs_dict [a] = [(''x0'', a)]"
  by (simp add: subs_dict_def var_name_def string_of_nat.simps digit_char_def)

lemma subs_dict_2: "subs_dict [a, b] = [(''x0'', a), (''x1'', b)]"
  by (simp add: subs_dict_def var_name_def string_of_nat.simps digit_char_def)

lemma example_well_formed: "well_formed example_featurizer"
  by (simp add: well_formed_def example_featurizer_def upto.simps)

lemma example_order:
  "nested_order example_featurizer [a, b] =
     [(1, [a], Power (Symbol ''x0'') (- 1)),
      (1, [b], Power (Symbol ''x0'') (- 1)),
      (2, [a, b], Mul [Symbol ''x0'', Symbol ''x1'']),
      (2, [a, b], Mul [Symbol ''x0'', Power (Symbol ''x1'') (- 1)]),
      (2, [a, b], Mul [Symbol ''x1'', Power (Symbol ''x0'') (- 1)]),
      (2, [a, b], Mul [Power (Symbol ''x0'') (- 1), Power (Symbol ''x1'') (- 1)])]"
  by (simp add: nested_order_def table_at_def example_featurizer_def upto.simps eval_nat_numeral)

lemma example_values:
  "featurize subs_numbers example_featurizer [2, 3] (Some py_float) =
     Inr [Some (Float (1 / 2)), Some (Float (1 / 3)), Some (Float 6), Some (Float (2 / 3)),
          Some (Float (3 / 2)), Some (Float (1 / 6))]"
  by (simp add: featurize_def exp_iter_def example_featurizer_def subs_dict_1 subs_dict_2
        yield_exp_def postprocessed_def subs_numbers_def real_pow_simps upto.simps
        eval_nat_numeral)

lemma example_labels:
  "feature_labels subs_names py_str latex example_featurizer [''a'', ''b''] False =
     Inr [Some (Str (Power (Symbol ''a'') (- 1))), Some (Str (Power (Symbol ''b'') (- 1))),
          Some (Str (Mul [Symbol ''a'', Symbol ''b''])),
          Some (Str (Mul [Symbol ''a'', Power (Symbol ''b'') (- 1)])),
          Some (Str (Mul [Symbol ''b'', Power (Symbol ''a'') (- 1)])),
          Some (Str (Mul [Power (Symbol ''a'') (- 1), Power (Symbol ''b'') (- 1)]))]"
  by code_simp

lemma example_init:
  "init_repaired parse_expr subs_symbol insertion_order np_prod (Some [''x'', ''1/x'']) 2 None
     = Inr example_featurizer"
proof -
  have 1: "generate_expressions_combinations_repaired parse_expr subs_symbol insertion_order
             [''x'', ''1/x''] 1 np_prod = Inr [Power (Symbol ''x0'') (- 1)]"
    by code_simp
  have 2: "generate_expressions_combinations_repaired parse_expr subs_symbol insertion_order
             [''x'', ''1/x''] 2 np_prod =
           Inr [Mul [Symbol ''x0'', Symbol ''x1''],
              Mul [Symbol ''x0'', Power (Symbol ''x1'') (- 1)],
              Mul [Symbol ''x1'', Power (Symbol ''x0'') (- 1)],
              Mul [Power (Symbol ''x0'') (- 1), Power (Symbol ''x1'') (- 1)]]"
    by code_simp
  show ?thesis
    by (simp add: init_repaired_def 1 2 upto.simps example_featurizer_def)
qed


lemma root_init:
  "init_repaired parse_expr subs_symbol insertion_order np_prod (Some [''sqrt(x)'', ''x**2'']) 1 None
     = Inr root_featurizer"
proof -
  have 1: "generate_expressions_combinations_repaired parse_expr subs_symbol insertion_order
             [''sqrt(x)'', ''x**2''] 1 np_prod
           = Inr [Power (Symbol ''x0'') (1 / 2), Power (Symbol ''x0'') 2]"
    by code_simp
  show ?thesis
    by (simp add: init_repaired_def 1 upto.simps root_featurizer_def)
qed

lemma root_well_formed: "well_formed root_featurizer"
  by (simp add: well_formed_def root_featurizer_def upto.simps)

lemma root_order:
  "nested_order root_featurizer [a] =
     [(1, [a], Power (Symbol ''x0'') (1 / 2)), (1, [a], Power (Symbol ''x0'') 2)]"
  by (simp add: nested_order_def table_at_def root_featurizer_def upto.simps)

lemma raised_at_numbers:
  "raised_at subs_numbers post (n, c, ex) =
     (case post (case evalf (map_of (subs_dict c)) ex of None \<Rightarrow> NotFloat | Some r \<Rightarrow> Float r) of
        Inl e \<Rightarrow> Some e | Inr w \<Rightarrow> None)"
  by (simp add: raised_at_def postprocessed_def subs_numbers_def)

lemma item_at_numbers:
  "item_at subs_numbers post (n, c, ex) =
     (case post (case evalf (map_of (subs_dict c)) ex of None \<Rightarrow> NotFloat | Some r \<Rightarrow> Float r) of
        Inl e \<Rightarrow> None | Inr w \<Rightarrow> Some w)"
  by (simp add: item_at_def postprocessed_def subs_numbers_def)


lemma raised_at_names:
  "raised_at subs_names post (n, c, ex) =
     (case postprocessed subs_names post (subs_dict c) ex of Inl e \<Rightarrow> Some e | Inr w \<Rightarrow> None)"
  by (simp add: raised_at_def)


lemma generate_never_returns:
  "generate_expressions_combinations parse s exprs n cf \<noteq> Inr res"
  by (simp add: generate_expressions_combinations_def split: sum.splits)

lemma traverse_keys:
  "traverse (\<lambda>n. case g n of Inl e \<Rightarrow> Inl e | Inr exps \<Rightarrow> Inr (n, exps)) ns = Inr table
     \<Longrightarrow> map fst table = ns"
  by (induction ns arbitrary: table) (auto split: sum.splits)

lemma keys_well_formed:
  assumes "map fst (exp_dict F) = [1..multi_feature_depth F]"
  shows "well_formed F"
proof -
  have "map_of (exp_dict F) n \<noteq> None" if "n \<in> set [1..multi_feature_depth F]" for n
  proof -
    from that assms have "n \<in> fst ` set (exp_dict F)" by (metis list.set_map)
    then show ?thesis by (simp add: map_of_eq_None_iff)
  qed
  then show ?thesis by (simp add: well_formed_def list_all_iff)
qed

lemma init_well_formed:
  "init p s np exprs d cf = Inr F \<Longrightarrow> well_formed F"
  by (rule keys_well_formed)
     (auto simp: init_def Let_def split: sum.splits dest: traverse_keys)

lemma init_repaired_well_formed:
  "init_repaired p s it np exprs d cf = Inr F \<Longrightarrow> well_formed F"
  by (rule keys_well_formed)
     (auto simp: init_repaired_def Let_def split: sum.splits dest: traverse_keys)


lemma root_labels:
  "feature_labels subs_names py_str latex root_featurizer [''a''] False
     = Inr [Some (Str (Power (Symbol ''a'') (1 / 2))), Some (Str (Power (Symbol ''a'') 2))]"
  by code_simp

lemma root_values:
  "featurize subs_numbers root_featurizer [- 4] (Some py_float) = Inr [None, Some (Float 16)]"
  by (simp add: featurize_def exp_iter_def root_featurizer_def subs_dict_1
        yield_exp_def postprocessed_def subs_numbers_def real_pow_simps upto.simps)

text \<open>
  A column name that sympy cannot parse: the substitution raises \<open>SympifyError\<close> at every
  slot that uses the name, and \<^verbatim>\<open>feature_labels\<close> returns \<open>None\<close> there.
\<close>

lemma labels_with_unparseable_column:
  "feature_labels subs_names py_str latex example_featurizer [''a'', ''c d''] False
     = Inr [Some (Str (Power (Symbol ''a'') (- 1))), None, None, None, None, None]"
  by code_simp

section \<open>The substitution engine: order, lengths and errors\<close>




text \<open>
  Claim C1. For argument and column-name tuples of the same length, on a featurizer
  whose table has every depth (as every constructed featurizer has) and when no
  exception outside the handler's classes is raised, \<^verbatim>\<open>featurize\<close> and
  \<^verbatim>\<open>feature_labels\<close> both return, and their sequences have the same length. Whenever
  both return, the lengths agree and at every position the value and the label come
  from the same (depth, positions, expression) triple.
\<close>

theorem values_and_labels_correspond:
  assumes len: "length args = length cols"
  shows "(well_formed F
          \<and> (\<forall>t \<in> set (nested_order F args). \<forall>e.
                raised_at subs (effective pp) t = Some e \<longrightarrow> caught e)
          \<and> (\<forall>t \<in> set (nested_order F cols). \<forall>e.
                raised_at subs' (if b then ltx else str) t = Some e \<longrightarrow> caught e)
          \<longrightarrow> (\<exists>vs ls. featurize subs F args pp = Inr vs
                \<and> feature_labels subs' str ltx F cols b = Inr ls
                \<and> length vs = length ls))
    \<and> (\<forall>vs ls. featurize subs F args pp = Inr vs
          \<and> feature_labels subs' str ltx F cols b = Inr ls
          \<longrightarrow> length vs = length ls
            \<and> length vs = length (nested_order F [0..<length args])
            \<and> (\<forall>i < length vs.
                  vs ! i = item_at subs (effective pp)
                     (fst (nested_order F [0..<length args] ! i),
                      map ((!) args) (fst (snd (nested_order F [0..<length args] ! i))),
                      snd (snd (nested_order F [0..<length args] ! i)))
                \<and> ls ! i = item_at subs' (if b then ltx else str)
                     (fst (nested_order F [0..<length args] ! i),
                      map ((!) cols) (fst (snd (nested_order F [0..<length args] ! i))),
                      snd (snd (nested_order F [0..<length args] ! i)))))"
proof -
  let ?T = "nested_order F [0..<length args]"
  let ?r = "if b then ltx else str"
  have a: "nested_order F args
      = map (\<lambda>t. (fst t, map ((!) args) (fst (snd t)), snd (snd t))) ?T"
    by (rule nested_order_positions)
  have c: "nested_order F cols
      = map (\<lambda>t. (fst t, map ((!) cols) (fst (snd t)), snd (snd t))) ?T"
    using nested_order_positions [of F cols] len by simp
  have fl: "feature_labels subs' str ltx F cols b = exp_iter subs' F cols (Some ?r)"
    by (simp add: feature_labels_def)
  have eff: "effective (Some ?r) = ?r" by (simp add: effective_def)
  have both: "length vs = length ls
            \<and> length vs = length ?T
            \<and> (\<forall>i < length vs.
                  vs ! i = item_at subs (effective pp)
                     (fst (?T ! i), map ((!) args) (fst (snd (?T ! i))), snd (snd (?T ! i)))
                \<and> ls ! i = item_at subs' ?r
                     (fst (?T ! i), map ((!) cols) (fst (snd (?T ! i))), snd (snd (?T ! i))))"
    if v: "featurize subs F args pp = Inr vs"
      and l: "feature_labels subs' str ltx F cols b = Inr ls" for vs ls
  proof -
    have vs: "vs = map (item_at subs (effective pp)) (nested_order F args)"
      using v unfolding featurize_def by (rule exp_iter_Inr_items')
    have ls: "ls = map (item_at subs' ?r) (nested_order F cols)"
      using exp_iter_Inr_items' [of subs' F cols "Some ?r" ls] l unfolding fl eff by simp
    show ?thesis
      unfolding vs ls by (subst (1 2 3 4) a, subst (1 2) c) simp
  qed
  have ret: "\<exists>vs ls. featurize subs F args pp = Inr vs
                \<and> feature_labels subs' str ltx F cols b = Inr ls
                \<and> length vs = length ls"
    if wf: "well_formed F"
      and cv: "\<forall>t \<in> set (nested_order F args). \<forall>e.
                raised_at subs (effective pp) t = Some e \<longrightarrow> caught e"
      and cl: "\<forall>t \<in> set (nested_order F cols). \<forall>e.
                raised_at subs' ?r t = Some e \<longrightarrow> caught e"
  proof -
    obtain vs where v: "featurize subs F args pp = Inr vs"
      using exp_iter_returns [OF wf, of args subs pp] cv unfolding featurize_def by blast
    obtain ls where l: "feature_labels subs' str ltx F cols b = Inr ls"
      using exp_iter_returns [OF wf, of cols subs' "Some ?r"] cl unfolding fl eff by blast
    from both [OF v l] have "length vs = length ls" by simp
    with v l show ?thesis by blast
  qed
  show ?thesis
  proof (rule conjI)
    show "well_formed F
          \<and> (\<forall>t \<in> set (nested_order F args). \<forall>e.
                raised_at subs (effective pp) t = Some e \<longrightarrow> caught e)
          \<and> (\<forall>t \<in> set (nested_order F cols). \<forall>e.
                raised_at subs' ?r t = Some e \<longrightarrow> caught e)
          \<longrightarrow> (\<exists>vs ls. featurize subs F args pp = Inr vs
                \<and> feature_labels subs' str ltx F cols b = Inr ls
                \<and> length vs = length ls)"
      using ret by blast
  next
    show "\<forall>vs ls. featurize subs F args pp = Inr vs
          \<and> feature_labels subs' str ltx F cols b = Inr ls
          \<longrightarrow> length vs = length ls
            \<and> length vs = length ?T
            \<and> (\<forall>i < length vs.
                  vs ! i = item_at subs (effective pp)
                     (fst (?T ! i), map ((!) args) (fst (snd (?T ! i))), snd (snd (?T ! i)))
                \<and> ls ! i = item_at subs' ?r
                     (fst (?T ! i), map ((!) cols) (fst (snd (?T ! i))), snd (snd (?T ! i))))"
    proof (intro allI impI)
      fix vs ls
      assume h: "featurize subs F args pp = Inr vs
          \<and> feature_labels subs' str ltx F cols b = Inr ls"
      show "length vs = length ls
            \<and> length vs = length ?T
            \<and> (\<forall>i < length vs.
                  vs ! i = item_at subs (effective pp)
                     (fst (?T ! i), map ((!) args) (fst (snd (?T ! i))), snd (snd (?T ! i)))
                \<and> ls ! i = item_at subs' ?r
                     (fst (?T ! i), map ((!) cols) (fst (snd (?T ! i))), snd (snd (?T ! i))))"
        by (rule both) (use h in simp_all)
    qed
  qed
qed


theorem values_and_labels_correspond_witness:
  "length [- 4 :: real] = length [''a'']
   \<and> well_formed root_featurizer
   \<and> raised_at subs_numbers (effective (Some py_float)) (nested_order root_featurizer [- 4] ! 0)
       = Some TypeError
   \<and> featurize subs_numbers root_featurizer [- 4] (Some py_float) = Inr [None, Some (Float 16)]
   \<and> feature_labels subs_names py_str latex root_featurizer [''a''] False
       = Inr [Some (Str (Power (Symbol ''a'') (1 / 2))), Some (Str (Power (Symbol ''a'') 2))]
   \<and> length [None, Some (Float 16)]
       = length [Some (Str (Power (Symbol ''a'') (1 / 2))), Some (Str (Power (Symbol ''a'') 2))]"
proof -
  have len: "length [- 4 :: real] = length [''a'']" by simp
  have err: "raised_at subs_numbers (effective (Some py_float))
      (nested_order root_featurizer [- 4] ! 0) = Some TypeError"
    by (simp add: root_order raised_at_numbers effective_def subs_dict_1 real_pow_simps)
  have cv: "\<forall>t \<in> set (nested_order root_featurizer [- 4 :: real]). \<forall>e.
      raised_at subs_numbers (effective (Some py_float)) t = Some e \<longrightarrow> caught e"
    by (simp add: root_order raised_at_numbers effective_def subs_dict_1 real_pow_simps)
  have cl: "\<forall>t \<in> set (nested_order root_featurizer [''a'']). \<forall>e.
      raised_at subs_names (if False then latex else py_str) t = Some e \<longrightarrow> caught e"
    by (simp add: root_order raised_at_names postprocessed_def subs_names_def
          sympify_symbol_def parse_table_def X_def subs_dict_1)
  from values_and_labels_correspond [OF len, of root_featurizer subs_numbers "Some py_float"
      subs_names False latex py_str]
    root_well_formed cv cl
  obtain vs ls where v: "featurize subs_numbers root_featurizer [- 4] (Some py_float) = Inr vs"
    and l: "feature_labels subs_names py_str latex root_featurizer [''a''] False = Inr ls"
    and e: "length vs = length ls"
    by blast
  have "length [None, Some (Float 16)]
       = length [Some (Str (Power (Symbol ''a'') (1 / 2))), Some (Str (Power (Symbol ''a'') 2))]"
    using v l e root_values root_labels by simp
  then show ?thesis using len root_well_formed err root_values root_labels by simp
qed

text \<open>
  Claim C10. A returned sequence has \<open>None\<close> exactly where substitution or
  postprocessing raised, and every exception raised there was a \<open>TypeError\<close> or a
  \<open>ValueError\<close>; an exception that escapes the call is never one of these; if any slot
  raises another exception the call does not return a sequence, and on a well-formed
  featurizer the exception that escapes is the first such one in enumeration order.
\<close>

theorem only_type_and_value_errors_become_none:
  "(exp_iter subs F args pp = Inr out \<longrightarrow>
      (\<forall>i < length (nested_order F args).
         (out ! i = None) =
         (\<exists>e. raised_at subs (effective pp) (nested_order F args ! i) = Some e \<and> caught e))
      \<and> (\<forall>t \<in> set (nested_order F args). \<forall>e.
           raised_at subs (effective pp) t = Some e \<longrightarrow> caught e))
   \<and> (exp_iter subs F args pp = Inl e \<longrightarrow> \<not> caught e)
   \<and> ((\<exists>t \<in> set (nested_order F args). \<exists>e'.
          raised_at subs (effective pp) t = Some e' \<and> \<not> caught e')
        \<longrightarrow> (\<exists>e'. exp_iter subs F args pp = Inl e' \<and> \<not> caught e'))
   \<and> (well_formed F \<and> i < length (nested_order F args)
        \<and> raised_at subs (effective pp) (nested_order F args ! i) = Some e \<and> \<not> caught e
        \<and> (\<forall>j < i. \<forall>e'. raised_at subs (effective pp) (nested_order F args ! j) = Some e'
               \<longrightarrow> caught e')
        \<longrightarrow> exp_iter subs F args pp = Inl e)
   \<and> featurize subs F args pp = exp_iter subs F args pp
   \<and> feature_labels subs str ltx F args b = exp_iter subs F args (Some (if b then ltx else str))"
proof (intro conjI impI)
  assume r: "exp_iter subs F args pp = Inr out"
  have c: "caught e'" if "t \<in> set (nested_order F args)"
    "raised_at subs (effective pp) t = Some e'" for t e'
    using exp_iter_Inr_caught [OF r that] .
  then show "\<forall>t \<in> set (nested_order F args). \<forall>e.
           raised_at subs (effective pp) t = Some e \<longrightarrow> caught e" by blast
  have o: "out = map (item_at subs (effective pp)) (nested_order F args)"
    using r by (rule exp_iter_Inr_items')
  show "\<forall>i < length (nested_order F args).
         (out ! i = None) =
         (\<exists>e. raised_at subs (effective pp) (nested_order F args ! i) = Some e \<and> caught e)"
  proof (intro allI impI)
    fix k assume k: "k < length (nested_order F args)"
    then have mem: "nested_order F args ! k \<in> set (nested_order F args)" by simp
    have cc: "caught e'" if "raised_at subs (effective pp) (nested_order F args ! k) = Some e'"
      for e' using c [OF mem that] .
    show "(out ! k = None) =
         (\<exists>e. raised_at subs (effective pp) (nested_order F args ! k) = Some e \<and> caught e)"
      unfolding o using cc k by (auto simp: item_at_None_iff)
  qed
next
  assume "exp_iter subs F args pp = Inl e"
  then show "\<not> caught e" by (rule exp_iter_Inl_uncaught)
next
  assume "\<exists>t \<in> set (nested_order F args). \<exists>e'.
          raised_at subs (effective pp) t = Some e' \<and> \<not> caught e'"
  then obtain t e' where t: "t \<in> set (nested_order F args)"
    "raised_at subs (effective pp) t = Some e'" "\<not> caught e'" by blast
  show "\<exists>e'. exp_iter subs F args pp = Inl e' \<and> \<not> caught e'"
  proof (cases "exp_iter subs F args pp")
    case (Inl x)
    then show ?thesis using exp_iter_Inl_uncaught by blast
  next
    case (Inr ys)
    then show ?thesis using exp_iter_Inr_caught [OF Inr t(1,2)] t(3) by simp
  qed
next
  assume a: "well_formed F \<and> i < length (nested_order F args)
        \<and> raised_at subs (effective pp) (nested_order F args ! i) = Some e \<and> \<not> caught e
        \<and> (\<forall>j < i. \<forall>e'. raised_at subs (effective pp) (nested_order F args ! j) = Some e'
               \<longrightarrow> caught e')"
  then show "exp_iter subs F args pp = Inl e"
    by (intro exp_iter_first_uncaught) auto
next
  show "featurize subs F args pp = exp_iter subs F args pp" by (simp add: featurize_def)
  show "feature_labels subs str ltx F args b = exp_iter subs F args (Some (if b then ltx else str))"
    by (simp add: feature_labels_def)
qed

text \<open>
  Claim C2. If one slot raises a \<open>TypeError\<close> or \<open>ValueError\<close> and the other slots
  evaluate normally, \<^verbatim>\<open>featurize\<close> returns a sequence with \<open>None\<close> at that position and
  the normal value at every other position, and its length is that of every sequence
  the call returns for these arguments, whatever the postprocessing function.
\<close>

theorem caught_error_gives_single_none:
  assumes wf: "well_formed F"
    and i: "i < length (nested_order F args)"
    and err: "raised_at subs (effective pp) (nested_order F args ! i) = Some e" "caught e"
    and others: "\<forall>j < length (nested_order F args). j \<noteq> i \<longrightarrow>
                   raised_at subs (effective pp) (nested_order F args ! j) = None"
  shows "\<exists>out. featurize subs F args pp = Inr out
      \<and> length out = length (nested_order F args)
      \<and> out ! i = None
      \<and> (\<forall>j < length (nested_order F args). j \<noteq> i \<longrightarrow>
            out ! j = item_at subs (effective pp) (nested_order F args ! j) \<and> out ! j \<noteq> None)
      \<and> (\<forall>pp' out'. featurize subs F args pp' = Inr out' \<longrightarrow> length out' = length out)"
proof -
  let ?T = "nested_order F args"
  have c: "caught e'" if "t \<in> set ?T" "raised_at subs (effective pp) t = Some e'" for t e'
  proof -
    from that(1) obtain j where j: "j < length ?T" "t = ?T ! j" by (auto simp: in_set_conv_nth)
    show ?thesis
    proof (cases "j = i")
      case True
      then show ?thesis using err that(2) j by simp
    next
      case False
      then show ?thesis using others that(2) j by simp
    qed
  qed
  obtain out where r: "exp_iter subs F args pp = Inr out"
    using exp_iter_returns [OF wf, of args subs pp] c by blast
  have o: "out = map (item_at subs (effective pp)) ?T"
    using r by (rule exp_iter_Inr_items')
  have l: "length out' = length out" if "featurize subs F args pp' = Inr out'" for pp' out'
    using exp_iter_Inr_items' [of subs F args pp' out'] that o by (simp add: featurize_def)
  have n: "out ! i = None" using i err unfolding o by (simp add: item_at_None_iff)
  have m: "out ! j = item_at subs (effective pp) (?T ! j) \<and> out ! j \<noteq> None"
    if "j < length ?T" "j \<noteq> i" for j
    using that others unfolding o by (simp add: item_at_None_iff)
  show ?thesis
    using r o n m l by (intro exI [of _ out]) (simp add: featurize_def)
qed

theorem only_type_and_value_errors_become_none_witness:
  "exp_iter subs_numbers example_featurizer [2, 3] (Some py_float) =
     Inr [Some (Float (1 / 2)), Some (Float (1 / 3)), Some (Float 6), Some (Float (2 / 3)),
          Some (Float (3 / 2)), Some (Float (1 / 6))]
   \<and> well_formed example_featurizer
   \<and> raised_at subs_numbers (effective (Some reciprocal_float))
        (nested_order example_featurizer [0, 3] ! 2) = Some ZeroDivisionError
   \<and> \<not> caught ZeroDivisionError
   \<and> exp_iter subs_numbers example_featurizer [0, 3] (Some reciprocal_float)
        = Inl ZeroDivisionError"
proof -
  let ?T = "nested_order example_featurizer [0, 3 :: real]"
  let ?p = "effective (Some reciprocal_float)"
  have i: "2 < length ?T" by (simp add: example_order)
  have err: "raised_at subs_numbers ?p (?T ! 2) = Some ZeroDivisionError"
    by (simp add: example_order raised_at_numbers effective_def subs_dict_2)
  have before: "\<forall>j < 2. \<forall>e'. raised_at subs_numbers ?p (?T ! j) = Some e' \<longrightarrow> caught e'"
    by (simp add: example_order raised_at_numbers effective_def subs_dict_1 real_pow_simps
          less_Suc_eq numeral_2_eq_2)
  have "exp_iter subs_numbers example_featurizer [0, 3] (Some reciprocal_float)
        = Inl ZeroDivisionError"
    using only_type_and_value_errors_become_none [of subs_numbers example_featurizer "[0, 3]"
        "Some reciprocal_float" "[]" ZeroDivisionError 2 py_float py_float False]
      example_well_formed i err before
    by simp
  then show ?thesis
    using example_values err example_well_formed by (simp add: featurize_def)
qed


theorem caught_error_gives_single_none_witness:
  "well_formed root_featurizer
   \<and> raised_at subs_numbers (effective (Some py_float)) (nested_order root_featurizer [- 4] ! 0)
       = Some TypeError
   \<and> caught TypeError
   \<and> featurize subs_numbers root_featurizer [- 4] (Some py_float) = Inr [None, Some (Float 16)]"
proof -
  let ?T = "nested_order root_featurizer [- 4 :: real]"
  have i: "0 < length ?T" by (simp add: root_order)
  have err: "raised_at subs_numbers (effective (Some py_float)) (?T ! 0) = Some TypeError"
    by (simp add: root_order raised_at_numbers effective_def subs_dict_1 real_pow_simps)
  have others: "\<forall>j < length ?T. j \<noteq> 0 \<longrightarrow>
      raised_at subs_numbers (effective (Some py_float)) (?T ! j) = None"
    by (simp add: root_order raised_at_numbers effective_def subs_dict_1 real_pow_simps
          less_Suc_eq)
  from caught_error_gives_single_none [OF root_well_formed i err _ others]
  obtain out where r: "featurize subs_numbers root_featurizer [- 4] (Some py_float) = Inr out"
    and l: "length out = length ?T" and n: "out ! 0 = None"
    and m: "\<forall>j < length ?T. j \<noteq> 0 \<longrightarrow>
              out ! j = item_at subs_numbers (effective (Some py_float)) (?T ! j)"
    by auto
  have "out ! 1 = Some (Float 16)"
    using m by (simp add: root_order item_at_numbers effective_def subs_dict_1 real_pow_simps)
  moreover have "length out = 2" using l by (simp add: root_order)
  ultimately have "out = [None, Some (Float 16)]"
    using n by (auto simp: length_Suc_conv numeral_2_eq_2)
  then show ?thesis using r err root_well_formed by simp
qed

section \<open>The constructor\<close>

text \<open>
  Claim C6, as amended. For every \<open>multi_feature_depth\<close> below 1 the constructor
  succeeds: the range of depths is empty, no expression is parsed, the table is empty,
  and \<^verbatim>\<open>featurize\<close> and \<^verbatim>\<open>feature_labels\<close> return the empty sequence for all
  arguments.
\<close>

theorem init_below_one:
  assumes "d < 1"
  shows "\<exists>F. init p s np exprs d cf = Inr F
     \<and> multi_feature_depth F = d \<and> exp_dict F = []
     \<and> featurize subs F args pp = Inr []
     \<and> feature_labels subs str ltx F args b = Inr []"
  using assms
  by (simp add: init_def Let_def featurize_def feature_labels_def exp_iter_def)


text \<open>The claim as stated fails at depth 0 with the default arguments.\<close>

theorem init_below_one_counterexample:
  "init parse_expr subs_symbol np_prod None 0 None
     = Inr \<lparr>expressions = default_exps, multi_feature_depth = 0, combo_function = np_prod,
            exp_dict = []\<rparr>"
  by (simp add: init_def)


theorem init_below_one_witness:
  "(- 3 :: int) < 1
   \<and> init parse_expr subs_symbol np_prod (Some [''((('']) (- 3) None
     = Inr \<lparr>expressions = [''((('']  , multi_feature_depth = - 3, combo_function = np_prod,
            exp_dict = []\<rparr>
   \<and> featurize subs_numbers
        \<lparr>expressions = [''((('']  , multi_feature_depth = - 3, combo_function = np_prod,
            exp_dict = []\<rparr> [2, 3] (Some py_float) = Inr []"
proof -
  have d: "(- 3 :: int) < 1" by simp
  from init_below_one [OF d, of parse_expr subs_symbol np_prod
      "Some [''((('']" None subs_numbers "[2, 3]" "Some py_float" py_float py_float False]
  obtain F where f: "init parse_expr subs_symbol np_prod (Some [''((('']) (- 3) None
      = Inr F" and r: "featurize subs_numbers F [2, 3] (Some py_float) = Inr []"
    by blast
  have "init parse_expr subs_symbol np_prod (Some [''((('']) (- 3) None
     = Inr \<lparr>expressions = [''((('']  , multi_feature_depth = - 3, combo_function = np_prod,
            exp_dict = []\<rparr>"
    by (simp add: init_def)
  then show ?thesis using f r d by simp
qed

section \<open>The combination generator\<close>

lemma traverse_total:
  "(\<And>x. x \<in> set xs \<Longrightarrow> \<exists>y. f x = Inr y) \<Longrightarrow> \<exists>ys. traverse f xs = Inr ys"
proof (induction xs)
  case Nil
  then show ?case by simp
next
  case (Cons x xs)
  obtain y where "f x = Inr y" using Cons.prems by auto
  moreover obtain ys where "traverse f xs = Inr ys" using Cons by auto
  ultimately show ?case by simp
qed

lemma arranges_set: "arranges iteration \<Longrightarrow> set (iteration xs) = set xs"
proof -
  assume "arranges iteration"
  then have "mset (iteration xs) = mset xs" by (simp add: arranges_def)
  then show ?thesis by (rule mset_eq_setD)
qed


lemma set_difference_list_set:
  "arranges iteration \<Longrightarrow> set (set_difference_list iteration a b) = set a - set b"
proof -
  assume arr: "arranges iteration"
  have "set (iteration ys) = set ys" for ys by (rule arranges_set [OF arr])
  then show ?thesis unfolding set_difference_list_def by auto
qed


lemma combo_exps_of_total:
  assumes "\<forall>str \<in> set exprs. \<exists>ex. parse str = Inr ex" "\<forall>xs. \<exists>c. cf xs = Inr c"
  shows "\<exists>cs. combo_exps_of parse s exprs n cf = Inr cs"
proof -
  obtain arr where a: "traverse parse exprs = Inr arr"
    using traverse_total [of exprs parse] assms(1) by blast
  have "\<exists>cs. traverse cf zs = Inr cs" for zs
    by (rule traverse_total) (use assms(2) in blast)
  then show ?thesis
    unfolding combo_exps_of_def a by (simp add: Let_def)
qed






text \<open>
  Claim C3 holds of the program the source is written to be, and the source misses it
  by a slip. With the base expressions \<^verbatim>\<open>["x", "1/x"]\<close> at depth 1 the loops produce the
  candidates \<^verbatim>\<open>x0\<close> and \<^verbatim>\<open>1/x0\<close>; the function as the source has it then stops with
  \<open>SyntaxError\<close> at line 213 and returns no list; with line 213 repaired it returns the
  list that holds \<^verbatim>\<open>1/x0\<close> only.
\<close>

theorem generate_stops_at_line_213:
  "combo_exps_of parse_expr subs_symbol [''x'', ''1/x''] 1 np_prod
       = Inr [Symbol ''x0'', Power (Symbol ''x0'') (- 1)]
   \<and> generate_expressions_combinations parse_expr subs_symbol [''x'', ''1/x''] 1 np_prod
       = Inl SyntaxError
   \<and> generate_expressions_combinations_repaired parse_expr subs_symbol insertion_order
        [''x'', ''1/x''] 1 np_prod = Inr [Power (Symbol ''x0'') (- 1)]"
proof -
  have c: "combo_exps_of parse_expr subs_symbol [''x'', ''1/x''] 1 np_prod
       = Inr [Symbol ''x0'', Power (Symbol ''x0'') (- 1)]" by code_simp
  have g: "generate_expressions_combinations_repaired parse_expr subs_symbol insertion_order
        [''x'', ''1/x''] 1 np_prod = Inr [Power (Symbol ''x0'') (- 1)]" by code_simp
  show ?thesis using c g by (simp add: generate_expressions_combinations_def)
qed


text \<open>
  The repaired function, for every base list, depth and combining function: the list
  it returns does not contain the bare variable \<^verbatim>\<open>x0\<close>, and it does return a list when
  every base expression parses and the combining function does not raise.
\<close>

lemma repaired_excludes_identity:
  assumes xid: "parse ''x0'' = Inr xid" and arr: "arranges iteration"
  shows "(generate_expressions_combinations_repaired parse s iteration exprs n cf = Inr res
            \<longrightarrow> xid \<notin> set res)
     \<and> ((\<forall>str \<in> set exprs. \<exists>ex. parse str = Inr ex) \<and> (\<forall>xs. \<exists>c. cf xs = Inr c)
          \<longrightarrow> (\<exists>res'. generate_expressions_combinations_repaired parse s iteration exprs n cf = Inr res'
                 \<and> xid \<notin> set res'))"
proof (intro conjI impI)
  assume "generate_expressions_combinations_repaired parse s iteration exprs n cf = Inr res"
  then obtain cs where "res = set_difference_list iteration cs [xid]"
    unfolding generate_expressions_combinations_repaired_def using xid by (auto split: sum.splits)
  then show "xid \<notin> set res" using set_difference_list_set [OF arr] by simp
next
  assume "(\<forall>str \<in> set exprs. \<exists>ex. parse str = Inr ex) \<and> (\<forall>xs. \<exists>c. cf xs = Inr c)"
  then obtain cs where "combo_exps_of parse s exprs n cf = Inr cs"
    using combo_exps_of_total by blast
  then have "generate_expressions_combinations_repaired parse s iteration exprs n cf
      = Inr (set_difference_list iteration cs [xid])"
    unfolding generate_expressions_combinations_repaired_def using xid by simp
  then show "\<exists>res'. generate_expressions_combinations_repaired parse s iteration exprs n cf = Inr res'
                 \<and> xid \<notin> set res'"
    using set_difference_list_set [OF arr] by simp
qed





section \<open>The depth-2 example\<close>

lemma generate_via_candidates:
  "combo_exps_of parse s exprs n cf = Inr cs \<Longrightarrow> parse ''x0'' = Inr xid \<Longrightarrow>
     generate_expressions_combinations_repaired parse s iteration exprs n cf
       = Inr (iteration (filter (\<lambda>c. c \<noteq> xid) (remdups cs)))"
  by (simp add: generate_expressions_combinations_repaired_def set_difference_list_def)

lemma arranges_singleton: "arranges iteration \<Longrightarrow> iteration [a] = [a]"
proof -
  assume "arranges iteration"
  then have m: "mset (iteration [a]) = {#a#}" by (simp add: arranges_def)
  then have "length (iteration [a]) = 1" by (metis size_mset size_single)
  then obtain b where b: "iteration [a] = [b]" by (auto simp: length_Suc_conv)
  with m show ?thesis by simp
qed

lemma collect_singletons:
  "(\<And>x. x \<in> set xs \<Longrightarrow> f x = Inr [g x]) \<Longrightarrow> collect f xs = Inr (map g xs)"
  by (induction xs) simp_all

lemma parse_x0: "parse_expr ''x0'' = Inr (Symbol ''x0'')"
  by code_simp

lemma depth_one_generated:
  "generate_expressions_combinations_repaired parse_expr subs_symbol iteration [''x'', ''1/x''] 1 np_prod
     = Inr (iteration [Power (Symbol ''x0'') (- 1)])"
proof -
  have c: "combo_exps_of parse_expr subs_symbol [''x'', ''1/x''] 1 np_prod
       = Inr [Symbol ''x0'', Power (Symbol ''x0'') (- 1)]" by code_simp
  show ?thesis unfolding generate_via_candidates [OF c parse_x0] by simp
qed

lemma depth_two_generated:
  "generate_expressions_combinations_repaired parse_expr subs_symbol iteration [''x'', ''1/x''] 2 np_prod
     = Inr (iteration depth_two_table)"
proof -
  have c: "combo_exps_of parse_expr subs_symbol [''x'', ''1/x''] 2 np_prod
       = Inr [Mul [Symbol ''x0'', Symbol ''x1''], Mul [Symbol ''x0'', Symbol ''x1''],
              Mul [Symbol ''x0'', Power (Symbol ''x1'') (- 1)],
              Mul [Symbol ''x0'', Power (Symbol ''x1'') (- 1)],
              Mul [Symbol ''x1'', Power (Symbol ''x0'') (- 1)],
              Mul [Symbol ''x1'', Power (Symbol ''x0'') (- 1)],
              Mul [Power (Symbol ''x0'') (- 1), Power (Symbol ''x1'') (- 1)],
              Mul [Power (Symbol ''x0'') (- 1), Power (Symbol ''x1'') (- 1)]]"
    by code_simp
  show ?thesis unfolding generate_via_candidates [OF c parse_x0]
    by (simp add: depth_two_table_def)
qed

lemma depth_two_values:
  "map (item_at subs_numbers py_float) (map (\<lambda>ex. (2, [2, 3], ex)) depth_two_table)
     = [Some (Float 6), Some (Float (2 / 3)), Some (Float (3 / 2)), Some (Float (1 / 6))]"
  by (simp add: depth_two_table_def item_at_numbers subs_dict_2 real_pow_simps)

lemma depth_two_slot:
  "ex \<in> set depth_two_table \<Longrightarrow>
     slot subs_numbers py_float (2, [2, 3], ex)
       = Inr [item_at subs_numbers py_float (2, [2, 3], ex)]"
  by (auto simp: depth_two_table_def slot_def yield_exp_def item_at_def postprocessed_def
        subs_numbers_def subs_dict_2 real_pow_simps)

lemma depth_two_inequivalent:
  "a \<in> set depth_two_table \<Longrightarrow> b \<in> set depth_two_table \<Longrightarrow> equivalent a b \<Longrightarrow> a = b"
proof -
  assume a: "a \<in> set depth_two_table" and b: "b \<in> set depth_two_table" and e: "equivalent a b"
  let ?env = "map_of [(''x0'', 2 :: real), (''x1'', 3)]"
  from e have "evalf ?env a = evalf ?env b" by (simp add: equivalent_def)
  with a b show ?thesis
    by (auto simp: depth_two_table_def real_pow_simps)
qed

lemma init_example_arranged:
  assumes "arranges iteration"
  shows "init_repaired parse_expr subs_symbol iteration np_prod (Some [''x'', ''1/x'']) 2 None
     = Inr \<lparr>expressions = [''x'', ''1/x''], multi_feature_depth = 2, combo_function = np_prod,
            exp_dict = [(1, [Power (Symbol ''x0'') (- 1)]), (2, iteration depth_two_table)]\<rparr>"
  by (simp add: init_repaired_def upto.simps depth_one_generated depth_two_generated
        arranges_singleton [OF assms])


text \<open>
  Claim C9 holds of the program the source is written to be, and the source misses it
  by the slip of line 213. With \<^verbatim>\<open>expressions=["x", "1/x"]\<close> and
  \<^verbatim>\<open>multi_feature_depth=2\<close> the constructor as the source has it stops with
  \<open>SyntaxError\<close> in its first call of the generator, after the depth-1 candidates have
  been produced, and builds no table; over the repaired generator it builds the
  featurizer whose depth-2 table is the four products.
\<close>

theorem depth_two_construction_stops:
  "combo_exps_of parse_expr subs_symbol [''x'', ''1/x''] 1 np_prod
       = Inr [Symbol ''x0'', Power (Symbol ''x0'') (- 1)]
   \<and> init parse_expr subs_symbol np_prod (Some [''x'', ''1/x'']) 2 None = Inl SyntaxError
   \<and> init_repaired parse_expr subs_symbol insertion_order np_prod (Some [''x'', ''1/x'']) 2 None
       = Inr example_featurizer
   \<and> table_at example_featurizer 2 = depth_two_table"
proof -
  have c: "combo_exps_of parse_expr subs_symbol [''x'', ''1/x''] 1 np_prod
       = Inr [Symbol ''x0'', Power (Symbol ''x0'') (- 1)]" by code_simp
  have "generate_expressions_combinations parse_expr subs_symbol [''x'', ''1/x''] 1 np_prod
       = Inl SyntaxError"
    using c by (simp add: generate_expressions_combinations_def)
  then have i: "init parse_expr subs_symbol np_prod (Some [''x'', ''1/x'']) 2 None
      = Inl SyntaxError"
    by (simp add: init_def upto.simps)
  have t: "table_at example_featurizer 2 = depth_two_table"
    by (simp add: table_at_def example_featurizer_def depth_two_table_def)
  show ?thesis using c i t example_init by simp
qed


text \<open>
  The repaired constructor with \<^verbatim>\<open>expressions=["x", "1/x"]\<close> and
  \<^verbatim>\<open>multi_feature_depth=2\<close>, whatever the iteration order of Python's set: the depth-2
  table consists of exactly the four expressions \<^verbatim>\<open>x0*x1\<close>, \<^verbatim>\<open>x0/x1\<close>, \<^verbatim>\<open>x1/x0\<close> and
  \<^verbatim>\<open>1/(x0*x1)\<close>, each once; the two orders of the pure product give the same
  expression; no two entries are equivalent; and \<^verbatim>\<open>featurize(2.0, 3.0)\<close> returns the two
  depth-1 values followed by the values of the four entries at (2.0, 3.0), in table
  order.
\<close>

lemma repaired_depth_two_example:
  assumes arr: "arranges iteration"
  shows "\<exists>F outs.
       init_repaired parse_expr subs_symbol iteration np_prod (Some [''x'', ''1/x'']) 2 None = Inr F
     \<and> mset (table_at F 2) = mset depth_two_table
     \<and> np_prod [Symbol ''x0'', Symbol ''x1''] = np_prod [Symbol ''x1'', Symbol ''x0'']
     \<and> (\<forall>a \<in> set (table_at F 2). \<forall>b \<in> set (table_at F 2). equivalent a b \<longrightarrow> a = b)
     \<and> featurize subs_numbers F [2, 3] (Some py_float)
         = Inr ([Some (Float (1 / 2)), Some (Float (1 / 3))] @ outs)
     \<and> outs = map (item_at subs_numbers py_float) (map (\<lambda>ex. (2, [2, 3], ex)) (table_at F 2))
     \<and> mset outs
         = mset [Some (Float 6), Some (Float (2 / 3)), Some (Float (3 / 2)), Some (Float (1 / 6))]"
proof -
  let ?t = "iteration depth_two_table"
  let ?F = "\<lparr>expressions = [''x'', ''1/x''], multi_feature_depth = 2, combo_function = np_prod,
            exp_dict = [(1, [Power (Symbol ''x0'') (- 1)]), (2, ?t)]\<rparr>"
  let ?h = "\<lambda>ex. item_at subs_numbers py_float (2, [2, 3], ex)"
  let ?outs = "map ?h ?t"
  have m: "mset ?t = mset depth_two_table" using arr by (simp add: arranges_def)
  have s: "set ?t = set depth_two_table" by (rule arranges_set [OF arr])
  have t2: "table_at ?F 2 = ?t" by (simp add: table_at_def)
  have wf: "well_formed ?F" by (simp add: well_formed_def upto.simps)
  have ord: "nested_order ?F [2, 3 :: real]
      = [(1, [2], Power (Symbol ''x0'') (- 1)), (1, [3], Power (Symbol ''x0'') (- 1))]
        @ map (\<lambda>ex. (2, [2, 3], ex)) ?t"
    by (simp add: nested_order_def table_at_def upto.simps eval_nat_numeral)
  have tail: "collect (slot subs_numbers py_float) (map (\<lambda>ex. (2, [2, 3], ex)) ?t)
      = Inr ?outs"
    unfolding collect_map
    by (rule collect_singletons) (simp add: s depth_two_slot)
  have f: "featurize subs_numbers ?F [2, 3] (Some py_float)
         = Inr ([Some (Float (1 / 2)), Some (Float (1 / 3))] @ ?outs)"
  proof -
    have h: "collect (slot subs_numbers py_float)
        [(1, [2], Power (Symbol ''x0'') (- 1)), (1, [3], Power (Symbol ''x0'') (- 1))]
        = Inr [Some (Float (1 / 2)), Some (Float (1 / 3))]"
      by (simp add: slot_def yield_exp_def postprocessed_def subs_numbers_def
          subs_dict_1 real_pow_simps)
    show ?thesis
      unfolding featurize_def exp_iter_flat [OF wf] ord collect_append
      by (simp only: effective_def option.case h tail sum.case)
  qed
  have v: "mset ?outs
      = mset [Some (Float 6), Some (Float (2 / 3)), Some (Float (3 / 2)), Some (Float (1 / 6))]"
  proof -
    have "mset ?outs = image_mset ?h (mset ?t)" by (rule mset_map)
    also have "\<dots> = image_mset ?h (mset depth_two_table)" unfolding m ..
    also have "\<dots> = mset (map ?h depth_two_table)" by (rule mset_map [symmetric])
    also have "map ?h depth_two_table
        = [Some (Float 6), Some (Float (2 / 3)), Some (Float (3 / 2)), Some (Float (1 / 6))]"
      using depth_two_values by (simp add: comp_def)
    finally show ?thesis .
  qed
  have c: "np_prod [Symbol ''x0'', Symbol ''x1''] = np_prod [Symbol ''x1'', Symbol ''x0'']"
    by code_simp
  have q: "\<forall>a \<in> set ?t. \<forall>b \<in> set ?t. equivalent a b \<longrightarrow> a = b"
    unfolding s using depth_two_inequivalent by blast
  show ?thesis
  proof (intro exI [of _ ?F] exI [of _ ?outs] conjI)
    show "init_repaired parse_expr subs_symbol iteration np_prod (Some [''x'', ''1/x'']) 2 None = Inr ?F"
      by (rule init_example_arranged [OF arr])
    show "mset (table_at ?F 2) = mset depth_two_table" unfolding t2 by (rule m)
    show "np_prod [Symbol ''x0'', Symbol ''x1''] = np_prod [Symbol ''x1'', Symbol ''x0'']"
      by (rule c)
    show "\<forall>a \<in> set (table_at ?F 2). \<forall>b \<in> set (table_at ?F 2). equivalent a b \<longrightarrow> a = b"
      unfolding t2 by (rule q)
    show "featurize subs_numbers ?F [2, 3] (Some py_float)
         = Inr ([Some (Float (1 / 2)), Some (Float (1 / 3))] @ ?outs)" by (rule f)
    show "?outs = map (item_at subs_numbers py_float) (map (\<lambda>ex. (2, [2, 3], ex)) (table_at ?F 2))"
      unfolding t2 by (simp add: comp_def)
    show "mset ?outs
      = mset [Some (Float 6), Some (Float (2 / 3)), Some (Float (3 / 2)), Some (Float (1 / 6))]"
      by (rule v)
  qed
qed



section \<open>The default configuration at depth 1\<close>
















end
